theory Spec2Isabelle
  imports Main "HOL-Library.Sublist"
begin

section \<open>pcap\_watcher.py: data model\<close>

text \<open>
  The parsed command line (\<^verbatim>\<open>args\<close> of \<^verbatim>\<open>main\<close>), restricted to the options that the
  event handler, \<^verbatim>\<open>EventWatcher.__init__\<close> and the startup sequence read. Python integers
  are unbounded, hence \<^typ>\<open>int\<close>; an option whose default is \<^verbatim>\<open>None\<close> is an
  \<^typ>\<open>'a option\<close>.
\<close>

record args =
  minBytes :: int
  maxBytes :: int
  opensearchUrl :: "string option"
  opensearchWaitForHealth :: bool
  nodeName :: string
  ignoreExisting :: bool
  includeAbsolutePath :: bool
  startSleepSec :: int
  recursiveDir :: "string option"
  baseDir :: string

text \<open>A pyinotify event: the handler reads \<^verbatim>\<open>event.dir\<close> and \<^verbatim>\<open>event.pathname\<close> only.\<close>

record event =
  dir :: bool
  pathname :: string

text \<open>
  The exceptions the code distinguishes: the four connection errors caught by name in
  \<^verbatim>\<open>EventWatcher.__init__\<close>, \<^verbatim>\<open>zmq.Again\<close>, and every other \<^verbatim>\<open>Exception\<close>.
\<close>

datatype exn =
    ConnectionError
  | ConnectionTimeout
  | ConnectionRefusedError
  | NewConnectionError
  | ZmqAgain
  | OtherException

text \<open>
  A search hit, \<^verbatim>\<open>hit.to_dict()\<close>: a dictionary from field names to JSON values. Numbers
  are integers here (the size field of the index is an integer count of bytes).
\<close>

datatype jval = JInt int | JStr string | JBool bool | JNull

type_synonym hit = "string \<rightharpoonup> jval"

text \<open>
  Python's \<^verbatim>\<open>v == n\<close> for a JSON value \<^verbatim>\<open>v\<close> and an integer \<^verbatim>\<open>n\<close>: integers compare by
  value, \<^verbatim>\<open>True\<close> and \<^verbatim>\<open>False\<close> are the integers 1 and 0, strings and \<^verbatim>\<open>None\<close> are never
  equal to an integer.
\<close>

fun py_eq_int :: "jval \<Rightarrow> int \<Rightarrow> bool" where
  "py_eq_int (JInt m) n = (m = n)"
| "py_eq_int (JBool b) n = ((if b then 1 else 0) = n)"
| "py_eq_int (JStr s) n = False"
| "py_eq_int JNull n = False"

text \<open>
  The published dictionary \<^verbatim>\<open>fileInfo\<close>. Its six keys are the constants
  \<^verbatim>\<open>FILE_INFO_*\<close> imported from \<^verbatim>\<open>pcap_utils\<close>; each is a field here.
\<close>

record fileInfo =
  FILE_INFO_DICT_NAME :: string
  FILE_INFO_DICT_SIZE :: int
  FILE_INFO_FILE_MIME :: string
  FILE_INFO_FILE_TYPE :: string
  FILE_INFO_DICT_NODE :: string
  FILE_INFO_DICT_TAGS :: "string list"

text \<open>
  What the handler reads from outside the process while it handles one event: the file
  system (\<^verbatim>\<open>os.path.isfile\<close>, \<^verbatim>\<open>os.path.getsize\<close>), libmagic (\<^verbatim>\<open>magic.from_file\<close> with
  and without \<^verbatim>\<open>mime=True\<close>), the search backend (\<^verbatim>\<open>Search(...).filter(...).query(...).execute()\<close>,
  given the index, the node of the term filter and the wildcard pattern; it returns the
  hits of the response or raises) and the socket (\<^verbatim>\<open>send_string\<close>, which returns or raises
  \<^verbatim>\<open>zmq.Again\<close>). \<^verbatim>\<open>PCAP_MIME_TYPES\<close> and \<^verbatim>\<open>tags_from_filename\<close> are imported from
  \<^verbatim>\<open>pcap_utils\<close>, which is not part of the source at hand: they are parameters. So is
  \<^verbatim>\<open>remove_prefix_unprefixed\<close>: what \<^verbatim>\<open>remove_prefix\<close> of \<^verbatim>\<open>malcolm_utils\<close> returns for a
  text and a prefix when the text does not start with the prefix.
\<close>

record world =
  os_path_isfile :: "string \<Rightarrow> bool"
  magic_from_file_mime :: "string \<Rightarrow> string"
  magic_from_file :: "string \<Rightarrow> string"
  os_path_getsize :: "string \<Rightarrow> int"
  execute :: "string \<Rightarrow> string \<Rightarrow> string \<Rightarrow> exn + hit list"
  send_string_raises :: "fileInfo \<Rightarrow> bool"
  PCAP_MIME_TYPES :: "string list"
  tags_from_filename :: "string \<Rightarrow> string list"
  remove_prefix_unprefixed :: "string \<Rightarrow> string \<Rightarrow> string"

text \<open>
  The state of an \<^verbatim>\<open>EventWatcher\<close> that the handler reads and changes: the flag
  \<^verbatim>\<open>useOpenSearch\<close>; the searches executed through \<^verbatim>\<open>openSearchClient\<close> so far, each with
  its index, the node of its term filter and its wildcard pattern; and the messages handed to
  \<^verbatim>\<open>topic_socket.send_string\<close> so far. Both lists are oldest first.
\<close>

record watcher =
  useOpenSearch :: bool
  queries :: "(string \<times> string \<times> string) list"
  sends :: "fileInfo list"

text \<open>How the handling of one event ends.\<close>

datatype outcome =
    Ignored
  | Rejected
  | DuplicateSkipped
  | Published
  | SendAgain
  | Raised exn

section \<open>Path helpers\<close>

definition ARKIME_FILES_INDEX :: string where
  "ARKIME_FILES_INDEX = ''arkime_files''"

definition ARKIME_FILE_SIZE_FIELD :: string where
  "ARKIME_FILE_SIZE_FIELD = ''filesize''"

definition os_path_sep :: string where
  "os_path_sep = ''/''"

text \<open>
  \<^verbatim>\<open>os.path.join(a, b)\<close> of the Python standard library on POSIX (pyinotify exists on
  Linux only): an absolute second component replaces the first; otherwise the components are
  joined by one separator, which is left out when the first is empty or ends with one.
\<close>

definition os_path_join :: "string \<Rightarrow> string \<Rightarrow> string" where
  "os_path_join a b =
     (if prefix os_path_sep b then b
      else if a = [] \<or> suffix os_path_sep a then a @ b
      else a @ os_path_sep @ b)"

text \<open>
  Modelled from the spec: \<^verbatim>\<open>remove_prefix\<close> is imported from \<^verbatim>\<open>malcolm_utils\<close>, which is
  not part of the source at hand. The specification says of its use: "Compute the path
  relative to the watched base directory (strip the base-directory prefix including its
  trailing separator)". What is returned for a text that does not start with the prefix is
  said neither there nor in the source at hand: it is left to the parameter \<open>unprefixed\<close>.
\<close>

definition remove_prefix ::
  "(string \<Rightarrow> string \<Rightarrow> string) \<Rightarrow> string \<Rightarrow> string \<Rightarrow> string" where
  "remove_prefix unprefixed text' prefix' =
     (if prefix prefix' text' then drop (length prefix') text' else unprefixed text' prefix')"

section \<open>The event handler\<close>

text \<open>
  The loop over the hits of the response (lines 219 to 223): the first hit that has the
  size field with a value equal to the size of the file ends the loop with
  \<^verbatim>\<open>fileIsDuplicate = True\<close>.
\<close>

fun hits_loop :: "hit list \<Rightarrow> int \<Rightarrow> bool" where
  "hits_loop [] fileSize = False"
| "hits_loop (fileInfo # response) fileSize =
     (case fileInfo ARKIME_FILE_SIZE_FIELD of
        None \<Rightarrow> hits_loop response fileSize
      | Some v \<Rightarrow> if py_eq_int v fileSize then True else hits_loop response fileSize)"

text \<open>\<^verbatim>\<open>relativePath\<close> of line 208.\<close>

definition relativePath :: "world \<Rightarrow> args \<Rightarrow> event \<Rightarrow> string" where
  "relativePath w a ev =
     remove_prefix (remove_prefix_unprefixed w) (pathname ev) (os_path_join (baseDir a) [])"

text \<open>
  \<^verbatim>\<open>_method_name(self, event)\<close>, the body of \<^verbatim>\<open>process_IN_CLOSE_WRITE\<close> and
  \<^verbatim>\<open>process_IN_MOVED_TO\<close>. The debug output is left out. The query is not inside any
  \<^verbatim>\<open>try\<close>: an exception of \<^verbatim>\<open>execute\<close> leaves the handler. The \<^verbatim>\<open>try\<close> around the send
  catches \<^verbatim>\<open>zmq.Again\<close> only. Each call of \<^verbatim>\<open>s.execute()\<close> is recorded in \<^verbatim>\<open>queries\<close>, each
  call of \<^verbatim>\<open>send_string\<close> in \<^verbatim>\<open>sends\<close>.
\<close>

definition process_event :: "world \<Rightarrow> args \<Rightarrow> watcher \<Rightarrow> event \<Rightarrow> outcome \<times> watcher" where
  "process_event w a self ev =
     (if \<not> dir ev \<and> os_path_isfile w (pathname ev) then
        let fileMime = magic_from_file_mime w (pathname ev);
            fileType = magic_from_file w (pathname ev);
            fileSize = os_path_getsize w (pathname ev)
        in if (minBytes a \<le> fileSize \<and> fileSize \<le> maxBytes a) \<and>
              (fileMime \<in> set (PCAP_MIME_TYPES w) \<or> sublist ''pcap-ng'' fileType)
           then
             let rel = relativePath w a ev;
                 info = \<lparr>FILE_INFO_DICT_NAME =
                           (if includeAbsolutePath a then pathname ev else rel),
                         FILE_INFO_DICT_SIZE = fileSize,
                         FILE_INFO_FILE_MIME = fileMime,
                         FILE_INFO_FILE_TYPE = fileType,
                         FILE_INFO_DICT_NODE = nodeName a,
                         FILE_INFO_DICT_TAGS = tags_from_filename w rel\<rparr>;
                 publish =
                   (\<lambda>self'. (if send_string_raises w info then SendAgain else Published,
                            self'\<lparr>sends := sends self' @ [info]\<rparr>))
             in if useOpenSearch self then
                  let pattern = ''*'' @ os_path_sep @ rel;
                      self' = self\<lparr>queries := queries self
                                      @ [(ARKIME_FILES_INDEX, nodeName a, pattern)]\<rparr>
                  in (case execute w ARKIME_FILES_INDEX (nodeName a) pattern of
                        Inl e \<Rightarrow> (Raised e, self')
                      | Inr response \<Rightarrow>
                          if hits_loop response fileSize then (DuplicateSkipped, self')
                          else publish self')
                else publish self
           else (Rejected, self)
      else (Ignored, self))"

text \<open>
  An event is accepted when it passes the test of lines 205 to 207, that is, when its
  handling reaches the duplicate check.
\<close>

definition accepted :: "outcome \<Rightarrow> bool" where
  "accepted out = (out \<noteq> Ignored \<and> out \<noteq> Rejected)"

section \<open>Startup: signals, retry loops and the watch set\<close>

text \<open>
  What the main thread does that can be observed from outside, in order. \<^verbatim>\<open>Poll\<close> is one
  read of the global \<^verbatim>\<open>shuttingDown\<close>; \<^verbatim>\<open>Sleep d\<close> is \<^verbatim>\<open>time.sleep\<close> of \<open>d\<close> tenths of a
  second; \<^verbatim>\<open>Connect\<close> is one run of the \<^verbatim>\<open>try\<close> body of lines 92 to 119, \<^verbatim>\<open>Health\<close> one run
  of the \<^verbatim>\<open>try\<close> body of lines 143 to 152.
\<close>

datatype action =
    Poll
  | Sleep nat
  | Connect
  | Health
  | Mkdir string
  | Glob
  | AddWatch string
  | Start
  | Touch string
  | Breakpoint
  | Stop

fun is_sleep :: "action \<Rightarrow> bool" where
  "is_sleep (Sleep d) = True"
| "is_sleep other = False"

text \<open>
  The surroundings of the main thread. A signal handler runs between two actions of the
  main thread, so the time of a signal is the number of actions done before it:
  \<^verbatim>\<open>shutdownAt = Some T\<close> says that SIGINT or SIGTERM arrives when \<open>T\<close> actions are done
  (\<^verbatim>\<open>None\<close>: never). \<^verbatim>\<open>shutdown_handler\<close> sets the flag and nothing clears it.
  \<^verbatim>\<open>pdbFlagged\<close> at a time is the value of that global when the main loop reads it.
  \<^verbatim>\<open>connect_attempt\<close> and \<^verbatim>\<open>health_attempt\<close> say what the \<^verbatim>\<open>try\<close> body started at a time
  raises, if anything. The file system is read through \<^verbatim>\<open>os.path.isdir\<close> (line 486),
  \<^verbatim>\<open>glob.glob\<close> (line 500, one result for each call) and \<^verbatim>\<open>pathlib.Path(d).iterdir()\<close> (line
  521): the paths it yields, as strings, each with the value of \<^verbatim>\<open>is_file()\<close>.
  \<^verbatim>\<open>os.path.abspath\<close> depends on the working directory.
\<close>

record timeline =
  shutdownAt :: "nat option"
  pdbFlagged :: "nat \<Rightarrow> bool"
  connect_attempt :: "nat \<Rightarrow> exn option"
  health_attempt :: "nat \<Rightarrow> exn option"
  os_path_isdir :: "string \<Rightarrow> bool"
  glob_glob :: "nat \<Rightarrow> string list"
  iterdir :: "string \<Rightarrow> (string \<times> bool) list"
  os_path_abspath :: "string \<Rightarrow> string"

definition shuttingDown :: "timeline \<Rightarrow> nat \<Rightarrow> bool" where
  "shuttingDown env t = (case shutdownAt env of None \<Rightarrow> False | Some T \<Rightarrow> T \<le> t)"

text \<open>
  The connection loop, lines 91 to 139, with the trace of actions so far. The loop
  condition reads the flag only when \<^verbatim>\<open>connected\<close> is false. Every exception of the
  \<^verbatim>\<open>try\<close> body is caught, by the inner or the outer handler, and leaves \<^verbatim>\<open>connected\<close>
  false; a body that returns sets \<^verbatim>\<open>connected = self.openSearchClient is not None\<close>, which
  is true, a constructor call having returned (so the \<^verbatim>\<open>time.sleep(1)\<close> of line 119 is
  never run). The loop can run for ever: no result is \<^verbatim>\<open>None\<close>.
\<close>

partial_function (option) connect_loop ::
  "timeline \<Rightarrow> bool \<Rightarrow> bool \<Rightarrow> action list \<Rightarrow> (bool \<times> action list) option" where
  "connect_loop env waitForHealth connected tr =
     (if connected then Some (connected, tr)
      else if shuttingDown env (length tr) then Some (connected, tr @ [Poll])
      else
        let connected' = (case connect_attempt env (length tr + 1) of
                            None \<Rightarrow> True | Some e \<Rightarrow> False);
            tr' = tr @ [Poll, Connect]
        in if \<not> connected' \<and> waitForHealth then
             connect_loop env waitForHealth connected' (tr' @ [Sleep 10])
           else if waitForHealth then Some (connected', tr' @ [Sleep 10])
           else Some (connected', tr'))"

text \<open>
  The health loop, lines 142 to 164. Only the four connection errors are caught; any
  other exception leaves \<^verbatim>\<open>__init__\<close>. The result is the exception that left the loop, if
  any, \<^verbatim>\<open>healthy\<close>, and the trace.
\<close>

fun caught :: "exn \<Rightarrow> bool" where
  "caught ConnectionError = True"
| "caught ConnectionTimeout = True"
| "caught ConnectionRefusedError = True"
| "caught NewConnectionError = True"
| "caught other = False"

partial_function (option) health_loop ::
  "timeline \<Rightarrow> bool \<Rightarrow> bool \<Rightarrow> bool \<Rightarrow> action list \<Rightarrow>
   (exn option \<times> bool \<times> action list) option" where
  "health_loop env waitForHealth connected healthy tr =
     (if \<not> (connected \<and> waitForHealth \<and> \<not> healthy) then Some (None, healthy, tr)
      else if shuttingDown env (length tr) then Some (None, healthy, tr @ [Poll])
      else
        (case health_attempt env (length tr + 1) of
           None \<Rightarrow> health_loop env waitForHealth connected True (tr @ [Poll, Health])
         | Some e \<Rightarrow>
             if caught e then
               health_loop env waitForHealth connected healthy (tr @ [Poll, Health, Sleep 10])
             else Some (Some e, healthy, tr @ [Poll, Health])))"

text \<open>
  \<^verbatim>\<open>EventWatcher.__init__\<close>, lines 82 to 166: the value of \<^verbatim>\<open>useOpenSearch\<close>, or the
  exception that left the constructor, with the trace. The client and the socket are new:
  nothing has been searched or sent.
\<close>

definition EventWatcher_init ::
  "timeline \<Rightarrow> args \<Rightarrow> action list \<Rightarrow> ((exn + watcher) \<times> action list) option" where
  "EventWatcher_init env a tr =
     (case opensearchUrl a of
        None \<Rightarrow> Some (Inr \<lparr>useOpenSearch = False, queries = [], sends = []\<rparr>, tr)
      | Some url \<Rightarrow>
          (case connect_loop env (opensearchWaitForHealth a) False tr of
             None \<Rightarrow> None
           | Some (connected, tr1) \<Rightarrow>
               (case health_loop env (opensearchWaitForHealth a) connected False tr1 of
                  None \<Rightarrow> None
                | Some (Some e, healthy, tr2) \<Rightarrow> Some (Inl e, tr2)
                | Some (None, healthy, tr2) \<Rightarrow>
                    Some (Inr \<lparr>useOpenSearch = (connected \<and> healthy), queries = [],
                                sends = []\<rparr>, tr2))))"

text \<open>The warm-up loop of \<^verbatim>\<open>main\<close>, lines 476 to 479.\<close>

function sleep_loop :: "timeline \<Rightarrow> int \<Rightarrow> int \<Rightarrow> action list \<Rightarrow> action list" where
  "sleep_loop env startSleep sleepCount tr =
     (if \<not> shuttingDown env (length tr) \<and> sleepCount < startSleep then
        sleep_loop env startSleep (sleepCount + 1) (tr @ [Poll, Sleep 10])
      else tr @ [Poll])"
  by pat_completeness auto
termination
  by (relation "measure (\<lambda>(env, startSleep, sleepCount, tr). nat (startSleep - sleepCount))") auto




text \<open>The polling loop of \<^verbatim>\<open>main\<close>, lines 528 to 532.\<close>

partial_function (option) main_loop :: "timeline \<Rightarrow> action list \<Rightarrow> action list option" where
  "main_loop env tr =
     (if shuttingDown env (length tr) then Some (tr @ [Poll])
      else if pdbFlagged env (length tr + 1) then main_loop env (tr @ [Poll, Breakpoint, Sleep 2])
      else main_loop env (tr @ [Poll, Sleep 2]))"


text \<open>
  The sleeps of a trace that begin when at least \<open>T\<close> actions are done, that is, after a
  signal that arrived at time \<open>T\<close>.
\<close>

definition sleeps_after :: "nat \<Rightarrow> action list \<Rightarrow> nat" where
  "sleeps_after T tr = length (filter is_sleep (drop T tr))"

section \<open>Example inputs\<close>

text \<open>
  A world in which every path is a regular capture file; sizes, query results and the base
  directory follow the scenarios of the specification (\<open>min = 24\<close>, \<open>max = 1000\<close>, node
  \<^verbatim>\<open>malcolm\<close>). Every path of the examples lies under the base directory \<^verbatim>\<open>/pcap\<close>.
\<close>

definition example_world :: world where
  "example_world =
     \<lparr>os_path_isfile = (\<lambda>p. True),
      magic_from_file_mime = (\<lambda>p. ''application/vnd.tcpdump.pcap''),
      magic_from_file = (\<lambda>p. ''pcap capture file''),
      os_path_getsize = (\<lambda>p. if p = ''/pcap/min.pcap'' then 24
                              else if p = ''/pcap/max.pcap'' then 1000
                              else if p = ''/pcap/small.pcap'' then 23
                              else if p = ''/pcap/big.pcap'' then 1001 else 500),
      execute = (\<lambda>index node pattern.
                   if pattern = ''*/sub/dir/test.pcap''
                   then Inr [[''filesize'' \<mapsto> JInt 123], [''filesize'' \<mapsto> JInt 500]]
                   else if pattern = ''*/retry.pcap'' then Inr [[''filesize'' \<mapsto> JInt 123]]
                   else if pattern = ''*/err.pcap'' then Inl OtherException
                   else Inr []),
      send_string_raises = (\<lambda>info. False),
      PCAP_MIME_TYPES = [''application/vnd.tcpdump.pcap'', ''application/x-pcapng''],
      tags_from_filename = (\<lambda>p. [p]),
      remove_prefix_unprefixed = (\<lambda>text' prefix'. text')\<rparr>"

definition example_args :: args where
  "example_args =
     \<lparr>minBytes = 24, maxBytes = 1000, opensearchUrl = None, opensearchWaitForHealth = False,
      nodeName = ''malcolm'', ignoreExisting = False, includeAbsolutePath = False,
      startSleepSec = 0, recursiveDir = None, baseDir = ''/pcap''\<rparr>"

text \<open>
  A run in which the backend never answers, no debugger is asked for, the base directory
  exists and holds two capture files and a subdirectory, and the shutdown signal arrives
  when seven actions are done.
\<close>

definition example_timeline :: timeline where
  "example_timeline =
     \<lparr>shutdownAt = Some 7,
      pdbFlagged = (\<lambda>t. False),
      connect_attempt = (\<lambda>t. Some ConnectionRefusedError),
      health_attempt = (\<lambda>t. Some ConnectionTimeout),
      os_path_isdir = (\<lambda>p. True),
      glob_glob = (\<lambda>t. []),
      iterdir = (\<lambda>d. if d = ''/pcap''
                      then [(''/pcap/a.pcap'', True), (''/pcap/sub'', False),
                            (''/pcap/b.pcap'', True)]
                      else []),
      os_path_abspath = (\<lambda>p. p)\<rparr>"

text \<open>The message published for \<^verbatim>\<open>/pcap/min.pcap\<close> in the example world.\<close>

definition example_info :: fileInfo where
  "example_info =
     \<lparr>FILE_INFO_DICT_NAME = ''min.pcap'', FILE_INFO_DICT_SIZE = 24,
      FILE_INFO_FILE_MIME = ''application/vnd.tcpdump.pcap'',
      FILE_INFO_FILE_TYPE = ''pcap capture file'', FILE_INFO_DICT_NODE = ''malcolm'',
      FILE_INFO_DICT_TAGS = [''min.pcap'']\<rparr>"

section \<open>Evaluation helpers\<close>

lemmas path_simps =
  relativePath_def remove_prefix_def os_path_join_def os_path_sep_def suffix_to_prefix
  ARKIME_FILE_SIZE_FIELD_def ARKIME_FILES_INDEX_def

lemma hits_loop_iff:
  "hits_loop response fileSize =
     (\<exists>h \<in> set response. \<exists>v. h ARKIME_FILE_SIZE_FIELD = Some v \<and> py_eq_int v fileSize)"
  by (induction response) (auto split: option.splits)

lemma process_event_sends:
  "sends (snd (process_event w a self ev)) =
     (if \<not> dir ev \<and> os_path_isfile w (pathname ev) \<and>
         minBytes a \<le> os_path_getsize w (pathname ev) \<and>
         os_path_getsize w (pathname ev) \<le> maxBytes a \<and>
         (magic_from_file_mime w (pathname ev) \<in> set (PCAP_MIME_TYPES w) \<or>
          sublist ''pcap-ng'' (magic_from_file w (pathname ev))) \<and>
         (useOpenSearch self \<longrightarrow>
            (case execute w ARKIME_FILES_INDEX (nodeName a)
                    (''*'' @ os_path_sep @ relativePath w a ev) of
               Inl e \<Rightarrow> False
             | Inr response \<Rightarrow> \<not> hits_loop response (os_path_getsize w (pathname ev))))
      then sends self @ [\<lparr>FILE_INFO_DICT_NAME =
                            (if includeAbsolutePath a then pathname ev else relativePath w a ev),
                          FILE_INFO_DICT_SIZE = os_path_getsize w (pathname ev),
                          FILE_INFO_FILE_MIME = magic_from_file_mime w (pathname ev),
                          FILE_INFO_FILE_TYPE = magic_from_file w (pathname ev),
                          FILE_INFO_DICT_NODE = nodeName a,
                          FILE_INFO_DICT_TAGS = tags_from_filename w (relativePath w a ev)\<rparr>]
      else sends self)"
  by (simp add: process_event_def Let_def split: sum.splits)

lemma process_event_queries:
  "queries (snd (process_event w a self ev)) =
     (if \<not> dir ev \<and> os_path_isfile w (pathname ev) \<and>
         minBytes a \<le> os_path_getsize w (pathname ev) \<and>
         os_path_getsize w (pathname ev) \<le> maxBytes a \<and>
         (magic_from_file_mime w (pathname ev) \<in> set (PCAP_MIME_TYPES w) \<or>
          sublist ''pcap-ng'' (magic_from_file w (pathname ev))) \<and>
         useOpenSearch self
      then queries self @ [(ARKIME_FILES_INDEX, nodeName a,
                            ''*'' @ os_path_sep @ relativePath w a ev)]
      else queries self)"
  by (simp add: process_event_def Let_def split: sum.splits)


lemma process_event_unchanged:
  "\<not> (\<not> dir ev \<and> os_path_isfile w (pathname ev) \<and>
      minBytes a \<le> os_path_getsize w (pathname ev) \<and>
      os_path_getsize w (pathname ev) \<le> maxBytes a \<and>
      (magic_from_file_mime w (pathname ev) \<in> set (PCAP_MIME_TYPES w) \<or>
       sublist ''pcap-ng'' (magic_from_file w (pathname ev)))) \<Longrightarrow>
   snd (process_event w a self ev) = self"
  by (auto simp: process_event_def Let_def)

section \<open>The filter of the event handler\<close>

text \<open>
  C1. For an event whose target is a regular file (\<^verbatim>\<open>event.dir\<close> is false and
  \<^verbatim>\<open>os.path.isfile\<close> holds), the event is accepted if and only if
  \<open>minBytes \<le> fileSize \<le> maxBytes\<close>, both bounds included, and the MIME type is one of
  \<^verbatim>\<open>PCAP_MIME_TYPES\<close> or the type description contains \<^verbatim>\<open>pcap-ng\<close>. Accepted is meant in
  what the handler does: it searches or sends (the watcher state changes) exactly when the
  test holds. With the backend in use an accepted event issues the duplicate query, once;
  without it the event is handed to the socket. An event that is not accepted searches
  nothing and sends nothing.
\<close>

theorem filter_accept_iff:
  assumes "\<not> dir ev" and "os_path_isfile w (pathname ev)"
  shows "(accepted (fst (process_event w a self ev)) =
            (minBytes a \<le> os_path_getsize w (pathname ev) \<and>
             os_path_getsize w (pathname ev) \<le> maxBytes a \<and>
             (magic_from_file_mime w (pathname ev) \<in> set (PCAP_MIME_TYPES w) \<or>
              sublist ''pcap-ng'' (magic_from_file w (pathname ev))))) \<and>
         ((snd (process_event w a self ev) \<noteq> self) =
            (minBytes a \<le> os_path_getsize w (pathname ev) \<and>
             os_path_getsize w (pathname ev) \<le> maxBytes a \<and>
             (magic_from_file_mime w (pathname ev) \<in> set (PCAP_MIME_TYPES w) \<or>
              sublist ''pcap-ng'' (magic_from_file w (pathname ev))))) \<and>
         (minBytes a \<le> os_path_getsize w (pathname ev) \<and>
          os_path_getsize w (pathname ev) \<le> maxBytes a \<and>
          (magic_from_file_mime w (pathname ev) \<in> set (PCAP_MIME_TYPES w) \<or>
           sublist ''pcap-ng'' (magic_from_file w (pathname ev))) \<and>
          useOpenSearch self \<longrightarrow>
            queries (snd (process_event w a self ev)) =
              queries self @ [(ARKIME_FILES_INDEX, nodeName a,
                               ''*'' @ os_path_sep @ relativePath w a ev)]) \<and>
         (minBytes a \<le> os_path_getsize w (pathname ev) \<and>
          os_path_getsize w (pathname ev) \<le> maxBytes a \<and>
          (magic_from_file_mime w (pathname ev) \<in> set (PCAP_MIME_TYPES w) \<or>
           sublist ''pcap-ng'' (magic_from_file w (pathname ev))) \<and>
          \<not> useOpenSearch self \<longrightarrow>
            queries (snd (process_event w a self ev)) = queries self \<and>
            sends (snd (process_event w a self ev)) =
              sends self @ [\<lparr>FILE_INFO_DICT_NAME =
                               (if includeAbsolutePath a then pathname ev
                                else relativePath w a ev),
                             FILE_INFO_DICT_SIZE = os_path_getsize w (pathname ev),
                             FILE_INFO_FILE_MIME = magic_from_file_mime w (pathname ev),
                             FILE_INFO_FILE_TYPE = magic_from_file w (pathname ev),
                             FILE_INFO_DICT_NODE = nodeName a,
                             FILE_INFO_DICT_TAGS =
                               tags_from_filename w (relativePath w a ev)\<rparr>]) \<and>
         (\<not> accepted (fst (process_event w a self ev)) \<longrightarrow>
            sends (snd (process_event w a self ev)) = sends self \<and>
            queries (snd (process_event w a self ev)) = queries self)"
proof -
  let ?F = "minBytes a \<le> os_path_getsize w (pathname ev) \<and>
             os_path_getsize w (pathname ev) \<le> maxBytes a \<and>
             (magic_from_file_mime w (pathname ev) \<in> set (PCAP_MIME_TYPES w) \<or>
              sublist ''pcap-ng'' (magic_from_file w (pathname ev)))"
  let ?r = "process_event w a self ev"
  have acc: "accepted (fst ?r) = ?F"
    using assms by (auto simp: process_event_def accepted_def Let_def split: sum.splits)
  have q: "queries (snd ?r) =
     (if ?F \<and> useOpenSearch self
      then queries self @ [(ARKIME_FILES_INDEX, nodeName a,
                            ''*'' @ os_path_sep @ relativePath w a ev)]
      else queries self)"
    using assms by (simp add: process_event_queries)
  have s: "?F \<and> \<not> useOpenSearch self \<longrightarrow>
            sends (snd ?r) =
              sends self @ [\<lparr>FILE_INFO_DICT_NAME =
                               (if includeAbsolutePath a then pathname ev
                                else relativePath w a ev),
                             FILE_INFO_DICT_SIZE = os_path_getsize w (pathname ev),
                             FILE_INFO_FILE_MIME = magic_from_file_mime w (pathname ev),
                             FILE_INFO_FILE_TYPE = magic_from_file w (pathname ev),
                             FILE_INFO_DICT_NODE = nodeName a,
                             FILE_INFO_DICT_TAGS =
                               tags_from_filename w (relativePath w a ev)\<rparr>]"
    using assms by (simp add: process_event_sends)
  have u: "\<not> ?F \<longrightarrow> snd ?r = self"
    using process_event_unchanged [of ev w a self] by blast
  have "?F \<longrightarrow> snd ?r \<noteq> self"
  proof (intro impI notI)
    assume f: ?F and e: "snd ?r = self"
    show False
    proof (cases "useOpenSearch self")
      case True
      with q f have "queries (snd ?r) \<noteq> queries self" by simp
      with e show False by simp
    next
      case False
      with s f have "sends (snd ?r) \<noteq> sends self" by simp
      with e show False by simp
    qed
  qed
  with u have ch: "(snd ?r \<noteq> self) = ?F" by blast
  have rej: "\<not> accepted (fst ?r) \<longrightarrow>
               sends (snd ?r) = sends self \<and> queries (snd ?r) = queries self"
    using acc u by auto
  from acc ch q s rej show ?thesis
    by simp
qed

text \<open>
  With \<open>min = 24\<close> and \<open>max = 1000\<close>: files of 24 and of 1000 bytes are accepted, files of 23
  and of 1001 bytes are not; the file of 1001 bytes leaves the watcher as it was, the file of
  24 bytes is sent when the backend is not in use and searched for when it is.
\<close>

theorem filter_accept_iff_witness:
  "accepted (fst (process_event example_world example_args
        \<lparr>useOpenSearch = False, queries = [], sends = []\<rparr>
        \<lparr>dir = False, pathname = ''/pcap/min.pcap''\<rparr>)) \<and>
   accepted (fst (process_event example_world example_args
         \<lparr>useOpenSearch = False, queries = [], sends = []\<rparr>
         \<lparr>dir = False, pathname = ''/pcap/max.pcap''\<rparr>)) \<and>
   \<not> accepted (fst (process_event example_world example_args
         \<lparr>useOpenSearch = False, queries = [], sends = []\<rparr>
         \<lparr>dir = False, pathname = ''/pcap/small.pcap''\<rparr>)) \<and>
   \<not> accepted (fst (process_event example_world example_args
         \<lparr>useOpenSearch = False, queries = [], sends = []\<rparr>
         \<lparr>dir = False, pathname = ''/pcap/big.pcap''\<rparr>)) \<and>
   snd (process_event example_world example_args
         \<lparr>useOpenSearch = False, queries = [], sends = []\<rparr>
         \<lparr>dir = False, pathname = ''/pcap/big.pcap''\<rparr>) =
         \<lparr>useOpenSearch = False, queries = [], sends = []\<rparr> \<and>
   sends (snd (process_event example_world example_args
         \<lparr>useOpenSearch = False, queries = [], sends = []\<rparr>
         \<lparr>dir = False, pathname = ''/pcap/min.pcap''\<rparr>)) = [example_info] \<and>
   queries (snd (process_event example_world example_args
         \<lparr>useOpenSearch = True, queries = [], sends = []\<rparr>
         \<lparr>dir = False, pathname = ''/pcap/min.pcap''\<rparr>))
     = [(''arkime_files'', ''malcolm'', ''*/min.pcap'')]"
  using filter_accept_iff [of
        "\<lparr>dir = False, pathname = ''/pcap/min.pcap''\<rparr>" example_world example_args
        "\<lparr>useOpenSearch = False, queries = [], sends = []\<rparr>"]
        filter_accept_iff [of
              "\<lparr>dir = False, pathname = ''/pcap/max.pcap''\<rparr>" example_world example_args
              "\<lparr>useOpenSearch = False, queries = [], sends = []\<rparr>"]
        filter_accept_iff [of
              "\<lparr>dir = False, pathname = ''/pcap/small.pcap''\<rparr>" example_world example_args
              "\<lparr>useOpenSearch = False, queries = [], sends = []\<rparr>"]
        filter_accept_iff [of
              "\<lparr>dir = False, pathname = ''/pcap/big.pcap''\<rparr>" example_world example_args
              "\<lparr>useOpenSearch = False, queries = [], sends = []\<rparr>"]
        filter_accept_iff [of
              "\<lparr>dir = False, pathname = ''/pcap/min.pcap''\<rparr>" example_world example_args
              "\<lparr>useOpenSearch = True, queries = [], sends = []\<rparr>"]
  by (simp add: example_world_def example_args_def example_info_def path_simps)

section \<open>Duplicate detection\<close>

text \<open>
  C2. With the backend in use, an accepted file is classified as a duplicate if and only if
  some hit of the response to the query (index \<^verbatim>\<open>arkime_files\<close>, term filter on the
  configured node, wildcard \<^verbatim>\<open>*/relativePath\<close>) has the size field with a value equal to
  the size of the file. A hit for the same path with another size does not make the file a
  duplicate.
\<close>

theorem duplicate_iff_size_hit:
  assumes "useOpenSearch self"
    and "accepted (fst (process_event w a self ev))"
    and "execute w ARKIME_FILES_INDEX (nodeName a) (''*'' @ os_path_sep @ relativePath w a ev)
           = Inr response"
  shows "(fst (process_event w a self ev) = DuplicateSkipped) =
           (\<exists>h \<in> set response. \<exists>v. h ARKIME_FILE_SIZE_FIELD = Some v \<and>
                                    py_eq_int v (os_path_getsize w (pathname ev)))"
  using assms
  by (auto simp: process_event_def accepted_def Let_def hits_loop_iff split: if_splits)

text \<open>
  The index holds sizes 123 and 500 for \<^verbatim>\<open>sub/dir/test.pcap\<close> and only 123 for
  \<^verbatim>\<open>retry.pcap\<close>; both files have 500 bytes.
\<close>

theorem duplicate_iff_size_hit_witness:
  "fst (process_event example_world example_args
        \<lparr>useOpenSearch = True, queries = [], sends = []\<rparr>
        \<lparr>dir = False, pathname = ''/pcap/sub/dir/test.pcap''\<rparr>) = DuplicateSkipped \<and>
   fst (process_event example_world example_args
         \<lparr>useOpenSearch = True, queries = [], sends = []\<rparr>
         \<lparr>dir = False, pathname = ''/pcap/retry.pcap''\<rparr>) \<noteq> DuplicateSkipped"
  using duplicate_iff_size_hit [of
        "\<lparr>useOpenSearch = True, queries = [], sends = []\<rparr>" example_world
          example_args "\<lparr>dir = False, pathname = ''/pcap/sub/dir/test.pcap''\<rparr>"
          "[[''filesize'' \<mapsto> JInt 123], [''filesize'' \<mapsto> JInt 500]]"]
        duplicate_iff_size_hit [of
              "\<lparr>useOpenSearch = True, queries = [], sends = []\<rparr>" example_world
          example_args "\<lparr>dir = False, pathname = ''/pcap/retry.pcap''\<rparr>"
          "[[''filesize'' \<mapsto> JInt 123]]"]
  by (simp add: example_world_def example_args_def process_event_def accepted_def Let_def
      path_simps)

text \<open>
  C5, as stated, fails: the query of line 218 is outside every \<^verbatim>\<open>try\<close>, so an error of the
  backend during the query is not turned into "not a duplicate". In the example, the query
  for \<^verbatim>\<open>err.pcap\<close> raises; the handler ends with that exception and nothing is sent.
\<close>

theorem query_error_not_fail_open:
  "fst (process_event example_world example_args
        \<lparr>useOpenSearch = True, queries = [], sends = []\<rparr>
        \<lparr>dir = False, pathname = ''/pcap/err.pcap''\<rparr>) = Raised OtherException \<and>
   sends (snd (process_event example_world example_args
         \<lparr>useOpenSearch = True, queries = [], sends = []\<rparr>
         \<lparr>dir = False, pathname = ''/pcap/err.pcap''\<rparr>)) = []"
  by (simp add: example_world_def example_args_def process_event_def Let_def path_simps)

text \<open>
  C5, amended. For an event that reaches the duplicate check with the backend in use, an
  exception raised by the query leaves the handler: the handling of the event ends with that
  exception, the query has been executed exactly once (it is not repeated) and nothing is
  handed to the socket.
\<close>

theorem query_error_leaves_handler:
  assumes "useOpenSearch self"
    and "\<not> dir ev" and "os_path_isfile w (pathname ev)"
    and "minBytes a \<le> os_path_getsize w (pathname ev)"
    and "os_path_getsize w (pathname ev) \<le> maxBytes a"
    and "magic_from_file_mime w (pathname ev) \<in> set (PCAP_MIME_TYPES w) \<or>
         sublist ''pcap-ng'' (magic_from_file w (pathname ev))"
    and "execute w ARKIME_FILES_INDEX (nodeName a) (''*'' @ os_path_sep @ relativePath w a ev)
           = Inl e"
  shows "process_event w a self ev =
           (Raised e,
            self\<lparr>queries := queries self @ [(ARKIME_FILES_INDEX, nodeName a,
                                               ''*'' @ os_path_sep @ relativePath w a ev)]\<rparr>)"
  using assms by (simp add: process_event_def Let_def)

theorem query_error_leaves_handler_witness:
  "process_event example_world example_args
        \<lparr>useOpenSearch = True, queries = [], sends = []\<rparr>
        \<lparr>dir = False, pathname = ''/pcap/err.pcap''\<rparr>
     = (Raised OtherException,
        \<lparr>useOpenSearch = True, queries = [(''arkime_files'', ''malcolm'', ''*/err.pcap'')],
         sends = []\<rparr>)"
  using query_error_leaves_handler [of
        "\<lparr>useOpenSearch = True, queries = [], sends = []\<rparr>"
          "\<lparr>dir = False, pathname = ''/pcap/err.pcap''\<rparr>" example_world example_args
          OtherException]
  by (simp add: example_world_def example_args_def path_simps)

text \<open>
  C6. With no endpoint (\<^verbatim>\<open>args.opensearchUrl is None\<close> when the watcher is built) the
  constructor leaves \<^verbatim>\<open>useOpenSearch\<close> false without connecting, and then every event that
  passes the existence test and the filter is handed to the socket, without any search,
  whatever was sent before and whatever the backend would have answered.
\<close>

theorem no_endpoint_always_publishes:
  assumes "opensearchUrl a = None"
    and "\<not> dir ev" and "os_path_isfile w (pathname ev)"
    and "minBytes a \<le> os_path_getsize w (pathname ev)"
    and "os_path_getsize w (pathname ev) \<le> maxBytes a"
    and "magic_from_file_mime w (pathname ev) \<in> set (PCAP_MIME_TYPES w) \<or>
         sublist ''pcap-ng'' (magic_from_file w (pathname ev))"
  shows "EventWatcher_init env a tr
           = Some (Inr \<lparr>useOpenSearch = False, queries = [], sends = []\<rparr>, tr) \<and>
         snd (process_event w a
               \<lparr>useOpenSearch = False, queries = qs, sends = ms\<rparr> ev) =
           \<lparr>useOpenSearch = False, queries = qs,
            sends = ms @ [\<lparr>FILE_INFO_DICT_NAME =
                             (if includeAbsolutePath a then pathname ev else relativePath w a ev),
                           FILE_INFO_DICT_SIZE = os_path_getsize w (pathname ev),
                           FILE_INFO_FILE_MIME = magic_from_file_mime w (pathname ev),
                           FILE_INFO_FILE_TYPE = magic_from_file w (pathname ev),
                           FILE_INFO_DICT_NODE = nodeName a,
                           FILE_INFO_DICT_TAGS = tags_from_filename w (relativePath w a ev)\<rparr>]\<rparr>"
  using assms by (simp add: process_event_def EventWatcher_init_def Let_def)

text \<open>The same file twice: the second message follows the first, identical one.\<close>

theorem no_endpoint_always_publishes_witness:
  "EventWatcher_init example_timeline example_args []
     = Some (Inr \<lparr>useOpenSearch = False, queries = [], sends = []\<rparr>, []) \<and>
   snd (process_event example_world example_args
         
                \<lparr>useOpenSearch = False, queries = [], sends = [example_info]\<rparr>
                \<lparr>dir = False, pathname = ''/pcap/min.pcap''\<rparr>)
     = \<lparr>useOpenSearch = False, queries = [], sends = [example_info, example_info]\<rparr>"
  using no_endpoint_always_publishes [of example_args
         
                "\<lparr>dir = False, pathname = ''/pcap/min.pcap''\<rparr>" example_world example_timeline "[]" "[]"
          "[example_info]"]
  by (simp add: example_world_def example_args_def example_info_def path_simps)

section \<open>Publication\<close>

text \<open>
  C7. An event that passes the filter and the duplicate check hands exactly one message to
  the socket (\<^verbatim>\<open>send_string\<close> is called once, whether or not it then raises
  \<^verbatim>\<open>zmq.Again\<close>), and the message has the name (the event path with
  \<^verbatim>\<open>--absolute-path\<close>, the relative path otherwise), the size, the MIME type, the type
  description, the configured node and the tags of the relative path. An event that is not
  a regular file, fails the filter or is a duplicate hands nothing to the socket.
\<close>

theorem publish_exactly_one:
  "(\<not> dir ev \<and> os_path_isfile w (pathname ev) \<and>
    minBytes a \<le> os_path_getsize w (pathname ev) \<and>
    os_path_getsize w (pathname ev) \<le> maxBytes a \<and>
    (magic_from_file_mime w (pathname ev) \<in> set (PCAP_MIME_TYPES w) \<or>
     sublist ''pcap-ng'' (magic_from_file w (pathname ev))) \<and>
    (useOpenSearch self \<longrightarrow>
      (\<exists>response.
         execute w ARKIME_FILES_INDEX (nodeName a) (''*'' @ os_path_sep @ relativePath w a ev)
           = Inr response \<and>
         \<not> (\<exists>h \<in> set response. \<exists>v. h ARKIME_FILE_SIZE_FIELD = Some v \<and>
                                     py_eq_int v (os_path_getsize w (pathname ev)))))
    \<longrightarrow> sends (snd (process_event w a self ev)) =
          sends self @ [\<lparr>FILE_INFO_DICT_NAME =
                             (if includeAbsolutePath a then pathname ev else relativePath w a ev),
                           FILE_INFO_DICT_SIZE = os_path_getsize w (pathname ev),
                           FILE_INFO_FILE_MIME = magic_from_file_mime w (pathname ev),
                           FILE_INFO_FILE_TYPE = magic_from_file w (pathname ev),
                           FILE_INFO_DICT_NODE = nodeName a,
                           FILE_INFO_DICT_TAGS = tags_from_filename w (relativePath w a ev)\<rparr>]) \<and>
   (dir ev \<or> \<not> os_path_isfile w (pathname ev) \<or>
    \<not> (minBytes a \<le> os_path_getsize w (pathname ev) \<and>
       os_path_getsize w (pathname ev) \<le> maxBytes a \<and>
       (magic_from_file_mime w (pathname ev) \<in> set (PCAP_MIME_TYPES w) \<or>
        sublist ''pcap-ng'' (magic_from_file w (pathname ev)))) \<or>
    (useOpenSearch self \<and>
      (\<exists>response.
         execute w ARKIME_FILES_INDEX (nodeName a) (''*'' @ os_path_sep @ relativePath w a ev)
           = Inr response \<and>
         (\<exists>h \<in> set response. \<exists>v. h ARKIME_FILE_SIZE_FIELD = Some v \<and>
                                   py_eq_int v (os_path_getsize w (pathname ev)))))
    \<longrightarrow> sends (snd (process_event w a self ev)) = sends self)"
proof (intro conjI impI)
  assume "\<not> dir ev \<and> os_path_isfile w (pathname ev) \<and>
    minBytes a \<le> os_path_getsize w (pathname ev) \<and>
    os_path_getsize w (pathname ev) \<le> maxBytes a \<and>
    (magic_from_file_mime w (pathname ev) \<in> set (PCAP_MIME_TYPES w) \<or>
     sublist ''pcap-ng'' (magic_from_file w (pathname ev))) \<and>
    (useOpenSearch self \<longrightarrow>
      (\<exists>response.
         execute w ARKIME_FILES_INDEX (nodeName a) (''*'' @ os_path_sep @ relativePath w a ev)
           = Inr response \<and>
         \<not> (\<exists>h \<in> set response. \<exists>v. h ARKIME_FILE_SIZE_FIELD = Some v \<and>
                                     py_eq_int v (os_path_getsize w (pathname ev)))))"
  then show "sends (snd (process_event w a self ev)) =
          sends self @ [\<lparr>FILE_INFO_DICT_NAME =
                             (if includeAbsolutePath a then pathname ev else relativePath w a ev),
                           FILE_INFO_DICT_SIZE = os_path_getsize w (pathname ev),
                           FILE_INFO_FILE_MIME = magic_from_file_mime w (pathname ev),
                           FILE_INFO_FILE_TYPE = magic_from_file w (pathname ev),
                           FILE_INFO_DICT_NODE = nodeName a,
                           FILE_INFO_DICT_TAGS = tags_from_filename w (relativePath w a ev)\<rparr>]"
    unfolding process_event_sends hits_loop_iff by fastforce
next
  assume "dir ev \<or> \<not> os_path_isfile w (pathname ev) \<or>
    \<not> (minBytes a \<le> os_path_getsize w (pathname ev) \<and>
       os_path_getsize w (pathname ev) \<le> maxBytes a \<and>
       (magic_from_file_mime w (pathname ev) \<in> set (PCAP_MIME_TYPES w) \<or>
        sublist ''pcap-ng'' (magic_from_file w (pathname ev)))) \<or>
    (useOpenSearch self \<and>
      (\<exists>response.
         execute w ARKIME_FILES_INDEX (nodeName a) (''*'' @ os_path_sep @ relativePath w a ev)
           = Inr response \<and>
         (\<exists>h \<in> set response. \<exists>v. h ARKIME_FILE_SIZE_FIELD = Some v \<and>
                                   py_eq_int v (os_path_getsize w (pathname ev)))))"
  then show "sends (snd (process_event w a self ev)) = sends self"
    unfolding process_event_sends hits_loop_iff
    by (elim disjE conjE exE) auto
qed

text \<open>
  With the backend in use: \<^verbatim>\<open>retry.pcap\<close> (indexed with another size) is published once,
  \<^verbatim>\<open>sub/dir/test.pcap\<close> (indexed with the same size) is not.
\<close>

theorem publish_exactly_one_witness:
  "sends (snd (process_event example_world example_args
        \<lparr>useOpenSearch = True, queries = [], sends = []\<rparr>
        \<lparr>dir = False, pathname = ''/pcap/retry.pcap''\<rparr>))
     = [\<lparr>FILE_INFO_DICT_NAME = ''retry.pcap'', FILE_INFO_DICT_SIZE = 500,
         FILE_INFO_FILE_MIME = ''application/vnd.tcpdump.pcap'',
         FILE_INFO_FILE_TYPE = ''pcap capture file'', FILE_INFO_DICT_NODE = ''malcolm'',
         FILE_INFO_DICT_TAGS = [''retry.pcap'']\<rparr>] \<and>
   sends (snd (process_event example_world example_args
         \<lparr>useOpenSearch = True, queries = [], sends = []\<rparr>
         \<lparr>dir = False, pathname = ''/pcap/sub/dir/test.pcap''\<rparr>)) = []"
  using publish_exactly_one [of "\<lparr>dir = False, pathname = ''/pcap/retry.pcap''\<rparr>"
          example_world example_args
                "\<lparr>useOpenSearch = True, queries = [], sends = []\<rparr>"]
        publish_exactly_one [of
              "\<lparr>dir = False, pathname = ''/pcap/sub/dir/test.pcap''\<rparr>"
          example_world example_args
                "\<lparr>useOpenSearch = True, queries = [], sends = []\<rparr>"]
  by (simp add: example_world_def example_args_def path_simps)

section \<open>Facts about the loops\<close>

declare sleep_loop.simps [simp del]



lemma connect_loop_no_wait:
  "connect_loop env False False tr =
     (if shuttingDown env (length tr) then Some (False, tr @ [Poll])
      else Some (connect_attempt env (length tr + 1) = None, tr @ [Poll, Connect]))"
  by (subst connect_loop.simps) (auto simp: Let_def split: option.splits)

lemma connect_loop_retries:
  assumes "\<forall>j<k. connect_attempt env (length tr + 3 * j + 1) \<noteq> None"
    and "\<forall>j<k. \<not> shuttingDown env (length tr + 3 * j)"
  shows "connect_loop env True False tr =
         connect_loop env True False (tr @ concat (replicate k [Poll, Connect, Sleep 10]))"
  using assms
proof (induction k arbitrary: tr)
  case 0
  then show ?case by simp
next
  case (Suc k)
  from Suc.prems have a0: "connect_attempt env (length tr + 1) \<noteq> None"
    and s0: "\<not> shuttingDown env (length tr)"
    by force+
  have step: "connect_loop env True False tr =
              connect_loop env True False (tr @ [Poll, Connect, Sleep 10])"
    using a0 s0 by (subst connect_loop.simps) (auto split: option.splits)
  have "\<forall>j<k. connect_attempt env (length (tr @ [Poll, Connect, Sleep 10]) + 3 * j + 1) \<noteq> None"
  proof (intro allI impI)
    fix j assume "j < k"
    then have "connect_attempt env (length tr + 3 * Suc j + 1) \<noteq> None"
      using Suc.prems(1) by (metis Suc_less_eq)
    moreover have "length (tr @ [Poll, Connect, Sleep 10]) + 3 * j + 1 = length tr + 3 * Suc j + 1"
      by simp
    ultimately show "connect_attempt env (length (tr @ [Poll, Connect, Sleep 10]) + 3 * j + 1) \<noteq> None"
      by metis
  qed
  moreover have "\<forall>j<k. \<not> shuttingDown env (length (tr @ [Poll, Connect, Sleep 10]) + 3 * j)"
  proof (intro allI impI)
    fix j assume "j < k"
    then have "\<not> shuttingDown env (length tr + 3 * Suc j)"
      using Suc.prems(2) by (metis Suc_less_eq)
    moreover have "length (tr @ [Poll, Connect, Sleep 10]) + 3 * j = length tr + 3 * Suc j"
      by simp
    ultimately show "\<not> shuttingDown env (length (tr @ [Poll, Connect, Sleep 10]) + 3 * j)"
      by metis
  qed
  ultimately have "connect_loop env True False (tr @ [Poll, Connect, Sleep 10]) =
      connect_loop env True False
        ((tr @ [Poll, Connect, Sleep 10]) @ concat (replicate k [Poll, Connect, Sleep 10]))"
    by (rule Suc.IH)
  with step show ?case by simp
qed

lemma connect_loop_exit_reason:
  assumes "connect_loop env w c0 tr = Some y"
  shows "w \<longrightarrow> fst y \<or> shuttingDown env (length (snd y) - 1)"
  by (rule connect_loop.raw_induct
        [where P = "\<lambda>env w c0 tr y. w \<longrightarrow> fst y \<or> shuttingDown env (length (snd y) - 1)",
         OF _ assms])
     (auto simp: Let_def split: if_splits option.splits)



lemma length_filter_drop_le: "length (filter P (drop n xs)) \<le> length (filter P xs)"
proof -
  have "length (filter P xs) = length (filter P (take n xs)) + length (filter P (drop n xs))"
    by (metis append_take_drop_id filter_append length_append)
  then show ?thesis by simp
qed

lemma sleeps_after_append_le:
  "length tr \<le> T \<Longrightarrow> sleeps_after T (tr @ xs) \<le> length (filter is_sleep xs)"
  by (simp add: sleeps_after_def length_filter_drop_le)

lemma sleeps_after_self: "length tr \<le> T \<Longrightarrow> sleeps_after T tr = 0"
  by (simp add: sleeps_after_def)

lemma connect_loop_exits:
  assumes "shutdownAt env = Some T"
  shows "\<exists>c tr'. connect_loop env w c0 tr = Some (c, tr') \<and>
           length tr' \<le> max T (length tr) + 3 \<and>
           sleeps_after (max T (length tr)) tr' \<le> 1"
proof (induction "T - length tr" arbitrary: tr c0 rule: less_induct)
  case less
  show ?case
  proof (cases "c0 \<or> T \<le> length tr")
    case True
    then have "connect_loop env w c0 tr = Some (c0, tr) \<or>
               connect_loop env w c0 tr = Some (c0, tr @ [Poll])"
      using assms by (subst (1 2) connect_loop.simps) (auto simp: shuttingDown_def)
    then show ?thesis
      using sleeps_after_append_le [of tr "max T (length tr)" "[Poll]"]
        sleeps_after_self [of tr "max T (length tr)"]
      by auto
  next
    case False
    then have lt: "length tr < T" and nc: "\<not> c0" by auto
    have nsd: "\<not> shuttingDown env (length tr)"
      using assms lt by (simp add: shuttingDown_def)
    show ?thesis
    proof (cases "connect_attempt env (length tr + 1) \<noteq> None \<and> w")
      case retry: True
      have step: "connect_loop env w c0 tr =
                  connect_loop env w False (tr @ [Poll, Connect, Sleep 10])"
        using nc nsd retry by (subst connect_loop.simps) (auto split: option.splits)
      show ?thesis
      proof (cases "T \<le> length tr + 3")
        case True
        then have "shuttingDown env (length (tr @ [Poll, Connect, Sleep 10]))"
          using assms by (simp add: shuttingDown_def)
        then have "connect_loop env w False (tr @ [Poll, Connect, Sleep 10]) =
                   Some (False, tr @ [Poll, Connect, Sleep 10, Poll])"
          by (subst connect_loop.simps) simp
        with step show ?thesis
          using lt True
            sleeps_after_append_le [of tr "max T (length tr)" "[Poll, Connect, Sleep 10, Poll]"]
          by auto
      next
        case False
        then have "T - length (tr @ [Poll, Connect, Sleep 10]) < T - length tr"
          by simp
        from less [OF this, of False] step False show ?thesis
          by (auto simp: max_def)
      qed
    next
      case finished: False
      have "connect_loop env w c0 tr = Some (connect_attempt env (length tr + 1) = None,
                                            tr @ [Poll, Connect, Sleep 10]) \<or>
            connect_loop env w c0 tr = Some (connect_attempt env (length tr + 1) = None,
                                            tr @ [Poll, Connect])"
        using nc nsd finished by (subst (1 2) connect_loop.simps) (auto simp: Let_def split: option.splits)
      then show ?thesis
        using lt
          sleeps_after_append_le [of tr "max T (length tr)" "[Poll, Connect, Sleep 10]"]
          sleeps_after_append_le [of tr "max T (length tr)" "[Poll, Connect]"]
        by auto
    qed
  qed
qed

lemma health_loop_exits:
  assumes "shutdownAt env = Some T"
  shows "\<exists>r h' tr'. health_loop env w c h tr = Some (r, h', tr') \<and>
           length tr' \<le> max T (length tr) + 3 \<and>
           sleeps_after (max T (length tr)) tr' \<le> 1"
proof (induction "T - length tr" arbitrary: tr rule: less_induct)
  case less
  show ?case
  proof (cases "\<not> (c \<and> w \<and> \<not> h) \<or> T \<le> length tr")
    case True
    then have "health_loop env w c h tr = Some (None, h, tr) \<or>
               health_loop env w c h tr = Some (None, h, tr @ [Poll])"
      using assms by (subst (1 2) health_loop.simps) (auto simp: shuttingDown_def)
    then show ?thesis
      using sleeps_after_append_le [of tr "max T (length tr)" "[Poll]"]
        sleeps_after_self [of tr "max T (length tr)"]
      by auto
  next
    case False
    then have lt: "length tr < T" and go: "c \<and> w \<and> \<not> h" by auto
    have nsd: "\<not> shuttingDown env (length tr)"
      using assms lt by (simp add: shuttingDown_def)
    show ?thesis
    proof (cases "\<exists>e. health_attempt env (length tr + 1) = Some e \<and> caught e")
      case retry: True
      have step: "health_loop env w c h tr =
                  health_loop env w c h (tr @ [Poll, Health, Sleep 10])"
        using go nsd retry by (subst health_loop.simps) auto
      show ?thesis
      proof (cases "T \<le> length tr + 3")
        case True
        then have "shuttingDown env (length (tr @ [Poll, Health, Sleep 10]))"
          using assms by (simp add: shuttingDown_def)
        then have "health_loop env w c h (tr @ [Poll, Health, Sleep 10]) =
                   Some (None, h, tr @ [Poll, Health, Sleep 10, Poll])"
          using go by (subst health_loop.simps) simp
        with step show ?thesis
          using lt True
            sleeps_after_append_le [of tr "max T (length tr)" "[Poll, Health, Sleep 10, Poll]"]
          by auto
      next
        case False
        then have "T - length (tr @ [Poll, Health, Sleep 10]) < T - length tr"
          by simp
        from less [OF this] step False show ?thesis
          by (auto simp: max_def)
      qed
    next
      case finished: False
      have "health_loop env w c True (tr @ [Poll, Health]) = Some (None, True, tr @ [Poll, Health])"
        by (subst health_loop.simps) simp
      then have "health_loop env w c h tr = Some (None, True, tr @ [Poll, Health]) \<or>
            (\<exists>e. health_loop env w c h tr = Some (Some e, h, tr @ [Poll, Health]))"
        using go nsd finished by (subst (1 2) health_loop.simps) (auto split: option.splits)
      then show ?thesis
        using lt sleeps_after_append_le [of tr "max T (length tr)" "[Poll, Health]"]
        by auto
    qed
  qed
qed

lemma sleep_loop_exits:
  assumes "shutdownAt env = Some T"
  shows "length (sleep_loop env n k tr) \<le> max T (length tr) + 3 \<and>
         sleeps_after (max T (length tr)) (sleep_loop env n k tr) \<le> 1"
proof (induction "T - length tr" arbitrary: tr k rule: less_induct)
  case less
  show ?case
  proof (cases "T \<le> length tr \<or> \<not> k < n")
    case True
    then have "sleep_loop env n k tr = tr @ [Poll]"
      using assms by (subst sleep_loop.simps) (auto simp: shuttingDown_def)
    then show ?thesis
      using sleeps_after_append_le [of tr "max T (length tr)" "[Poll]"] by auto
  next
    case False
    then have lt: "length tr < T" and kn: "k < n" by auto
    have step: "sleep_loop env n k tr = sleep_loop env n (k + 1) (tr @ [Poll, Sleep 10])"
      using assms lt kn by (subst sleep_loop.simps) (simp add: shuttingDown_def)
    show ?thesis
    proof (cases "T \<le> length tr + 2")
      case True
      then have "sleep_loop env n (k + 1) (tr @ [Poll, Sleep 10]) = tr @ [Poll, Sleep 10, Poll]"
        using assms by (subst sleep_loop.simps) (simp add: shuttingDown_def)
      with step show ?thesis
        using lt sleeps_after_append_le [of tr "max T (length tr)" "[Poll, Sleep 10, Poll]"]
        by auto
    next
      case False
      then have "T - length (tr @ [Poll, Sleep 10]) < T - length tr"
        by simp
      from less [OF this, of "k + 1"] step False show ?thesis
        by (auto simp: max_def)
    qed
  qed
qed

lemma main_loop_exits:
  assumes "shutdownAt env = Some T"
  shows "\<exists>tr'. main_loop env tr = Some tr' \<and>
           length tr' \<le> max T (length tr) + 3 \<and>
           sleeps_after (max T (length tr)) tr' \<le> 1"
proof (induction "T - length tr" arbitrary: tr rule: less_induct)
  case less
  show ?case
  proof (cases "T \<le> length tr")
    case True
    then have "main_loop env tr = Some (tr @ [Poll])"
      using assms by (subst main_loop.simps) (simp add: shuttingDown_def)
    then show ?thesis
      using sleeps_after_append_le [of tr "max T (length tr)" "[Poll]"] by auto
  next
    case False
    then have lt: "length tr < T" by simp
    define xs where "xs = (if pdbFlagged env (length tr + 1) then [Poll, Breakpoint, Sleep 2]
                           else [Poll, Sleep 2])"
    have step: "main_loop env tr = main_loop env (tr @ xs)"
      using assms lt by (subst main_loop.simps) (simp add: shuttingDown_def xs_def)
    have len: "length xs \<le> 3" and one: "length (filter is_sleep (xs @ [Poll])) \<le> 1"
      by (simp_all add: xs_def)
    show ?thesis
    proof (cases "T \<le> length (tr @ xs)")
      case True
      then have "main_loop env (tr @ xs) = Some (tr @ xs @ [Poll])"
        using assms by (subst main_loop.simps) (simp add: shuttingDown_def)
      with step show ?thesis
        using lt len one sleeps_after_append_le [of tr "max T (length tr)" "xs @ [Poll]"]
        by auto
    next
      case False
      have "2 \<le> length xs"
        by (simp add: xs_def)
      then have "T - length (tr @ xs) < T - length tr"
        using lt unfolding length_append by linarith
      from less [OF this] step False show ?thesis
        by (auto simp: max_def)
    qed
  qed
qed

lemma connect_loop_extends:
  assumes "connect_loop env w c0 tr = Some y"
  shows "prefix tr (snd y)"
  by (rule connect_loop.raw_induct [where P = "\<lambda>env w c0 tr y. prefix tr (snd y)", OF _ assms])
     (auto simp: Let_def split: if_splits option.splits; blast dest: append_prefixD)

lemma health_loop_extends:
  assumes "health_loop env w c h tr = Some y"
  shows "prefix tr (snd (snd y))"
  by (rule health_loop.raw_induct
        [where P = "\<lambda>env w c h tr y. prefix tr (snd (snd y))", OF _ assms])
     (auto simp: Let_def split: if_splits option.splits; blast dest: append_prefixD)

lemma main_loop_extends:
  assumes "main_loop env tr = Some y"
  shows "prefix tr y"
  by (rule main_loop.raw_induct [where P = "\<lambda>env tr y. prefix tr y", OF _ assms])
     (auto simp: Let_def split: if_splits option.splits; blast dest: append_prefixD)

lemma sleep_loop_extends: "prefix tr (sleep_loop env n k tr)"
proof (induction env n k tr rule: sleep_loop.induct)
  case (1 env n k tr)
  show ?case
  proof (cases "\<not> shuttingDown env (length tr) \<and> k < n")
    case True
    with 1 have "prefix (tr @ [Poll, Sleep 10]) (sleep_loop env n k tr)"
      by (subst sleep_loop.simps) simp
    then show ?thesis by (rule append_prefixD)
  next
    case False
    then show ?thesis by (subst sleep_loop.simps) auto
  qed
qed





section \<open>The backend at startup\<close>




text \<open>
  C4, as stated, fails: the retry is guarded by \<^verbatim>\<open>args.opensearchWaitForHealth\<close> (line 134).
  In the example the backend refuses every connection, no shutdown is requested and the wait
  is not requested: the loop ends after one attempt, not connected, without sleeping.
\<close>

theorem connect_gives_up_without_wait:
  "connect_loop (example_timeline\<lparr>shutdownAt := None\<rparr>) False False []
     = Some (False, [Poll, Connect])"
  by (simp add: example_timeline_def connect_loop.simps [of _ False] shuttingDown_def)

text \<open>
  C4, amended. With \<^verbatim>\<open>--opensearch-wait\<close> the connection loop goes on until it is
  connected or the shutdown flag is read as set: after \<open>k\<close> failed attempts, for any \<open>k\<close>, each
  followed by one sleep of one second and a new read of the flag, a successful attempt ends
  the loop connected and a set flag ends it not connected; and whenever the loop ends, it is
  connected or its last read of the flag found it set. No error leaves the loop. Without
  \<^verbatim>\<open>--opensearch-wait\<close> the loop makes exactly one attempt and ends, connected or not,
  without sleeping.
\<close>

theorem connect_loop_retry_policy:
  "((\<forall>j<k. connect_attempt env (length tr + 3 * j + 1) \<noteq> None) \<and>
    (\<forall>j<k. \<not> shuttingDown env (length tr + 3 * j)) \<longrightarrow>
      (\<not> shuttingDown env (length tr + 3 * k) \<and>
       connect_attempt env (length tr + 3 * k + 1) = None \<longrightarrow>
         connect_loop env True False tr
           = Some (True, tr @ concat (replicate k [Poll, Connect, Sleep 10])
                            @ [Poll, Connect, Sleep 10])) \<and>
      (shuttingDown env (length tr + 3 * k) \<longrightarrow>
         connect_loop env True False tr
           = Some (False, tr @ concat (replicate k [Poll, Connect, Sleep 10]) @ [Poll]))) \<and>
   (connect_loop env True False tr = Some (c, tr') \<longrightarrow>
      c \<or> shuttingDown env (length tr' - 1)) \<and>
   (\<not> shuttingDown env (length tr) \<longrightarrow>
      connect_loop env False False tr
        = Some (connect_attempt env (length tr + 1) = None, tr @ [Poll, Connect]))"
proof (intro conjI impI)
  assume h: "(\<forall>j<k. connect_attempt env (length tr + 3 * j + 1) \<noteq> None) \<and>
    (\<forall>j<k. \<not> shuttingDown env (length tr + 3 * j))"
  assume g: "\<not> shuttingDown env (length tr + 3 * k) \<and>
       connect_attempt env (length tr + 3 * k + 1) = None"
  define tr1 where "tr1 = tr @ concat (replicate k [Poll, Connect, Sleep 10])"
  have len: "length tr1 = length tr + 3 * k"
    by (simp add: tr1_def length_concat sum_list_replicate)
  have "connect_loop env True False tr = connect_loop env True False tr1"
    unfolding tr1_def using h by (intro connect_loop_retries) auto
  also have "\<dots> = Some (True, tr1 @ [Poll, Connect, Sleep 10])"
    using g len by (subst connect_loop.simps) simp
  finally show "connect_loop env True False tr
           = Some (True, tr @ concat (replicate k [Poll, Connect, Sleep 10])
                            @ [Poll, Connect, Sleep 10])"
    by (simp add: tr1_def)
next
  assume h: "(\<forall>j<k. connect_attempt env (length tr + 3 * j + 1) \<noteq> None) \<and>
    (\<forall>j<k. \<not> shuttingDown env (length tr + 3 * j))"
  assume g: "shuttingDown env (length tr + 3 * k)"
  define tr1 where "tr1 = tr @ concat (replicate k [Poll, Connect, Sleep 10])"
  have len: "length tr1 = length tr + 3 * k"
    by (simp add: tr1_def length_concat sum_list_replicate)
  have "connect_loop env True False tr = connect_loop env True False tr1"
    unfolding tr1_def using h by (intro connect_loop_retries) auto
  also have "\<dots> = Some (False, tr1 @ [Poll])"
    using g len by (subst connect_loop.simps) simp
  finally show "connect_loop env True False tr
           = Some (False, tr @ concat (replicate k [Poll, Connect, Sleep 10]) @ [Poll])"
    by (simp add: tr1_def)
next
  assume "connect_loop env True False tr = Some (c, tr')"
  from connect_loop_exit_reason [OF this]
  show "c \<or> shuttingDown env (length tr' - 1)" by simp
next
  assume "\<not> shuttingDown env (length tr)"
  then show "connect_loop env False False tr
        = Some (connect_attempt env (length tr + 1) = None, tr @ [Poll, Connect])"
    by (simp add: connect_loop_no_wait)
qed

text \<open>
  Three refused attempts until the shutdown signal; two timeouts and then a connection; one
  attempt without the wait.
\<close>

theorem connect_loop_retry_policy_witness:
  "connect_loop example_timeline True False []
     = Some (False, [Poll, Connect, Sleep 10, Poll, Connect, Sleep 10, Poll, Connect, Sleep 10,
                     Poll]) \<and>
   connect_loop (example_timeline\<lparr>shutdownAt := None,
                   connect_attempt := (\<lambda>t. if t < 7 then Some ConnectionTimeout else None)\<rparr>)
       True False []
     = Some (True, [Poll, Connect, Sleep 10, Poll, Connect, Sleep 10, Poll, Connect, Sleep 10]) \<and>
   connect_loop (example_timeline\<lparr>shutdownAt := Some 1\<rparr>) False False []
     = Some (False, [Poll, Connect])"
  using connect_loop_retry_policy [where k = 3 and env = example_timeline and tr = "[]"]
        connect_loop_retry_policy
          [where k = 2 and tr = "[]"
             and env = "example_timeline\<lparr>shutdownAt := None,
                   connect_attempt := (\<lambda>t. if t < 7 then Some ConnectionTimeout else None)\<rparr>"]
        connect_loop_retry_policy
          [where env = "example_timeline\<lparr>shutdownAt := Some 1\<rparr>" and tr = "[]"]
  by (simp add: example_timeline_def shuttingDown_def numeral_3_eq_3 numeral_2_eq_2)

section \<open>Shutdown\<close>

text \<open>
  C8. Let the shutdown signal arrive when \<open>T\<close> actions are done. Each of the four loops that
  read the flag (connection, health check, warm-up, main polling loop), started at any point
  and in any state, ends; it goes on from the trace it was given; at most three actions
  follow the later of its start and the signal; and at most one of them is a sleep.
\<close>

theorem shutdown_ends_each_loop:
  assumes "shutdownAt env = Some T"
  shows "(\<exists>c' tr'. connect_loop env w c0 tr = Some (c', tr') \<and> prefix tr tr' \<and>
            length tr' \<le> max T (length tr) + 3 \<and>
            sleeps_after (max T (length tr)) tr' \<le> 1) \<and>
         (\<exists>r h' tr'. health_loop env w c h tr = Some (r, h', tr') \<and> prefix tr tr' \<and>
            length tr' \<le> max T (length tr) + 3 \<and>
            sleeps_after (max T (length tr)) tr' \<le> 1) \<and>
         (prefix tr (sleep_loop env n k tr) \<and>
            length (sleep_loop env n k tr) \<le> max T (length tr) + 3 \<and>
            sleeps_after (max T (length tr)) (sleep_loop env n k tr) \<le> 1) \<and>
         (\<exists>tr'. main_loop env tr = Some tr' \<and> prefix tr tr' \<and>
            length tr' \<le> max T (length tr) + 3 \<and>
            sleeps_after (max T (length tr)) tr' \<le> 1)"
proof (intro conjI)
  from connect_loop_exits [OF assms, of w c0 tr] obtain c' tr' where
    "connect_loop env w c0 tr = Some (c', tr')" "length tr' \<le> max T (length tr) + 3"
    "sleeps_after (max T (length tr)) tr' \<le> 1" by blast
  moreover from connect_loop_extends [OF this(1)] have "prefix tr tr'" by simp
  ultimately show "\<exists>c' tr'. connect_loop env w c0 tr = Some (c', tr') \<and> prefix tr tr' \<and>
            length tr' \<le> max T (length tr) + 3 \<and>
            sleeps_after (max T (length tr)) tr' \<le> 1" by blast
next
  from health_loop_exits [OF assms, of w c h tr] obtain r h' tr' where
    "health_loop env w c h tr = Some (r, h', tr')" "length tr' \<le> max T (length tr) + 3"
    "sleeps_after (max T (length tr)) tr' \<le> 1" by blast
  moreover from health_loop_extends [OF this(1)] have "prefix tr tr'" by simp
  ultimately show "\<exists>r h' tr'. health_loop env w c h tr = Some (r, h', tr') \<and> prefix tr tr' \<and>
            length tr' \<le> max T (length tr) + 3 \<and>
            sleeps_after (max T (length tr)) tr' \<le> 1" by blast
next
  show "prefix tr (sleep_loop env n k tr)"
    by (rule sleep_loop_extends)
next
  show "length (sleep_loop env n k tr) \<le> max T (length tr) + 3"
    using sleep_loop_exits [OF assms, of n k tr] by simp
next
  show "sleeps_after (max T (length tr)) (sleep_loop env n k tr) \<le> 1"
    using sleep_loop_exits [OF assms, of n k tr] by simp
next
  from main_loop_exits [OF assms, of tr] obtain tr' where
    "main_loop env tr = Some tr'" "length tr' \<le> max T (length tr) + 3"
    "sleeps_after (max T (length tr)) tr' \<le> 1" by blast
  moreover from main_loop_extends [OF this(1)] have "prefix tr tr'" .
  ultimately show "\<exists>tr'. main_loop env tr = Some tr' \<and> prefix tr tr' \<and>
            length tr' \<le> max T (length tr) + 3 \<and>
            sleeps_after (max T (length tr)) tr' \<le> 1" by blast
qed

text \<open>
  The signal arrives when seven actions are done; the backend never answers and the warm-up
  delay is 30 seconds.
\<close>

theorem shutdown_ends_each_loop_witness:
  "shutdownAt example_timeline = Some 7 \<and>
   (\<exists>c' tr'. connect_loop example_timeline True False [] = Some (c', tr') \<and>
      length tr' \<le> 10 \<and> sleeps_after 7 tr' \<le> 1) \<and>
   (\<exists>r h' tr'. health_loop example_timeline True True False [] = Some (r, h', tr') \<and>
      length tr' \<le> 10 \<and> sleeps_after 7 tr' \<le> 1) \<and>
   (length (sleep_loop example_timeline 30 0 []) \<le> 10 \<and>
      sleeps_after 7 (sleep_loop example_timeline 30 0 []) \<le> 1) \<and>
   (\<exists>tr'. main_loop example_timeline [] = Some tr' \<and>
      length tr' \<le> 10 \<and> sleeps_after 7 tr' \<le> 1)"
  using shutdown_ends_each_loop [of example_timeline 7 True False "[]" True False 30 0]
  by (simp add: example_timeline_def)

section \<open>Files that are there at startup\<close>




end
